theory Spec2Isabelle
  imports Main "HOL-Library.Log_Nat"
begin

section \<open>Python floats as rounded rationals\<close>

text \<open>
  The numbers of \<^verbatim>\<open>bayesian_diagnosis.py\<close> are Python floats: IEEE 754 binary64.
  A finite double is a dyadic rational, and every arithmetic operation of the
  source computes the exact rational result and rounds it to the nearest double,
  ties to the even significand.  The model therefore calculates in \<^typ>\<open>rat\<close> and
  passes every intermediate result through a rounding function \<open>rnd\<close>:
  \<open>fl64\<close> is the rounding of the machine (53-bit significand, least exponent
  \<open>-1022\<close>, subnormals below it), \<open>exact\<close> is the arithmetic of the mathematics
  (no rounding at all).  Values beyond the largest finite double (about
  \<open>1.8e308\<close>) are outside the model: no computation on probabilities reaches them.
\<close>

definition rne :: "rat \<Rightarrow> int" where
  "rne x = (let n = \<lfloor>x\<rfloor>; d = x - of_int n
            in if d < 1 / 2 then n
               else if 1 / 2 < d then n + 1
               else if even n then n else n + 1)"

definition ilog2 :: "rat \<Rightarrow> int" where
  "ilog2 x = (if 1 \<le> x then bitlen \<lfloor>x\<rfloor> - 1
              else - bitlen (\<lceil>1 / x\<rceil> - 1))"

definition ulp :: "rat \<Rightarrow> rat" where
  "ulp x = 2 powi (max (ilog2 x) (- 1022) - 52)"

definition fl64 :: "rat \<Rightarrow> rat" where
  "fl64 x = (if x = 0 then 0
             else if 0 < x then of_int (rne (x / ulp x)) * ulp x
             else - (of_int (rne (- x / ulp (- x))) * ulp (- x)))"

definition exact :: "rat \<Rightarrow> rat" where
  "exact x = x"

text \<open>
  What the proofs below need of a rounding function: it is monotone, it leaves
  its own results alone, and it represents \<open>0\<close>, \<open>1/2\<close> and \<open>1\<close> exactly.  Both
  \<open>fl64\<close> and \<open>exact\<close> are roundings in this sense (\<open>rounding_fl64\<close>,
  \<open>rounding_exact\<close>).
\<close>

definition rounding :: "(rat \<Rightarrow> rat) \<Rightarrow> bool" where
  "rounding rnd \<longleftrightarrow>
     (\<forall>x y. x \<le> y \<longrightarrow> rnd x \<le> rnd y) \<and> (\<forall>x. rnd (rnd x) = rnd x) \<and>
     rnd 0 = 0 \<and> rnd (1 / 2) = 1 / 2 \<and> rnd 1 = 1"

section \<open>The class \<^verbatim>\<open>BayesianDiagnosis\<close>\<close>

text \<open>
  The object is its two attributes.  \<^verbatim>\<open>__init__\<close> stores the prior and starts the
  history with it; it checks nothing and raises nothing.  \<^verbatim>\<open>update\<close> reads the
  last history entry, runs the loop over \<^verbatim>\<open>zip(tests, results)\<close>, divides, appends
  and returns.  Python raises \<^verbatim>\<open>ZeroDivisionError\<close> when the divisor is zero and
  \<^verbatim>\<open>IndexError\<close> when \<^verbatim>\<open>[-1]\<close> is read from an empty list; both happen before
  the \<^verbatim>\<open>append\<close>, so the object is returned as it was.  The last three
  constructors of \<open>error\<close> are the exceptions the specification names; the source
  defines no such classes and no equation below produces them.
\<close>

datatype error = IndexError | ZeroDivisionError
  | EmptyEvidenceError | DegenerateEvidenceError | InvalidProbabilityError

record BayesianDiagnosis =
  prior :: rat
  posterior_history :: "rat list"

definition init :: "rat \<Rightarrow> error + BayesianDiagnosis" where
  "init p = Inr \<lparr>prior = p, posterior_history = [p]\<rparr>"

fun likelihoods ::
  "(rat \<Rightarrow> rat) \<Rightarrow> rat \<times> rat \<Rightarrow> ((rat \<times> rat) \<times> bool) list \<Rightarrow> rat \<times> rat" where
  "likelihoods rnd (likelihood_given_D, likelihood_given_notD) [] =
     (likelihood_given_D, likelihood_given_notD)"
| "likelihoods rnd (likelihood_given_D, likelihood_given_notD)
     (((P_pos_given_D, P_pos_given_notD), res) # rest) =
     (if res
      then likelihoods rnd (rnd (likelihood_given_D * P_pos_given_D),
                            rnd (likelihood_given_notD * P_pos_given_notD)) rest
      else likelihoods rnd (rnd (likelihood_given_D * rnd (1 - P_pos_given_D)),
                            rnd (likelihood_given_notD * rnd (1 - P_pos_given_notD))) rest)"

definition update ::
  "(rat \<Rightarrow> rat) \<Rightarrow> BayesianDiagnosis \<Rightarrow> (rat \<times> rat) list \<Rightarrow> bool list
     \<Rightarrow> (error + rat) \<times> BayesianDiagnosis" where
  "update rnd self tests results =
     (if posterior_history self = [] then (Inl IndexError, self)
      else
        let P_D = last (posterior_history self);
            P_notD = rnd (1 - P_D);
            (likelihood_given_D, likelihood_given_notD) =
               likelihoods rnd (1, 1) (zip tests results);
            P_all = rnd (rnd (P_D * likelihood_given_D) + rnd (P_notD * likelihood_given_notD))
        in if P_all = 0 then (Inl ZeroDivisionError, self)
           else
             let posterior = rnd (rnd (P_D * likelihood_given_D) / P_all)
             in (Inr posterior,
                 self\<lparr>posterior_history := posterior_history self @ [posterior]\<rparr>))"


text \<open>
  A session: the calls of \<^verbatim>\<open>update\<close> made on one object, in order.  A call that
  raises leaves the object as it was, so the session goes on from the same state.
\<close>

fun updates ::
  "(rat \<Rightarrow> rat) \<Rightarrow> BayesianDiagnosis \<Rightarrow> ((rat \<times> rat) list \<times> bool list) list
     \<Rightarrow> BayesianDiagnosis" where
  "updates rnd self [] = self"
| "updates rnd self ((tests, results) # calls) =
     updates rnd (snd (update rnd self tests results)) calls"

section \<open>Bayes' rule as the specification words it\<close>

text \<open>
  An evidence item is a test \<open>(sensitivity, false_positive_rate)\<close> with its
  outcome.  The likelihoods are the left-to-right products of the per-item
  factors, starting from \<open>1\<close>; \<open>p_evidence\<close> is the total probability of the
  evidence and \<open>bayes_posterior\<close> the quotient of the specification's step 5.
  Every operation is rounded by \<open>rnd\<close>, as in the program.
\<close>

type_synonym evidence = "(rat \<times> rat) \<times> bool"

fun factor_d :: "(rat \<Rightarrow> rat) \<Rightarrow> evidence \<Rightarrow> rat" where
  "factor_d rnd ((sensitivity, false_positive_rate), outcome) =
     (if outcome then sensitivity else rnd (1 - sensitivity))"

fun factor_not_d :: "(rat \<Rightarrow> rat) \<Rightarrow> evidence \<Rightarrow> rat" where
  "factor_not_d rnd ((sensitivity, false_positive_rate), outcome) =
     (if outcome then false_positive_rate else rnd (1 - false_positive_rate))"

definition likelihood_d :: "(rat \<Rightarrow> rat) \<Rightarrow> evidence list \<Rightarrow> rat" where
  "likelihood_d rnd evidence_list = foldl (\<lambda>l e. rnd (l * factor_d rnd e)) 1 evidence_list"

definition likelihood_not_d :: "(rat \<Rightarrow> rat) \<Rightarrow> evidence list \<Rightarrow> rat" where
  "likelihood_not_d rnd evidence_list =
     foldl (\<lambda>l e. rnd (l * factor_not_d rnd e)) 1 evidence_list"

definition p_evidence :: "(rat \<Rightarrow> rat) \<Rightarrow> rat \<Rightarrow> evidence list \<Rightarrow> rat" where
  "p_evidence rnd p_d evidence_list =
     rnd (rnd (p_d * likelihood_d rnd evidence_list)
          + rnd (rnd (1 - p_d) * likelihood_not_d rnd evidence_list))"

definition bayes_posterior :: "(rat \<Rightarrow> rat) \<Rightarrow> rat \<Rightarrow> evidence list \<Rightarrow> rat" where
  "bayes_posterior rnd p_d evidence_list =
     rnd (rnd (p_d * likelihood_d rnd evidence_list) / p_evidence rnd p_d evidence_list)"

text \<open>
  The range condition of the specification on the tests of one call, and the
  range invariant on the history of an object.
\<close>

definition valid_tests :: "(rat \<times> rat) list \<Rightarrow> bool" where
  "valid_tests tests \<longleftrightarrow> (\<forall>(s, f) \<in> set tests. 0 \<le> s \<and> s \<le> 1 \<and> 0 \<le> f \<and> f \<le> 1)"

definition unit_history :: "BayesianDiagnosis \<Rightarrow> bool" where
  "unit_history self \<longleftrightarrow> (\<forall>h \<in> set (posterior_history self). 0 \<le> h \<and> h \<le> 1)"


section \<open>Rounding to the nearest double\<close>

lemma rne_of_int: "rne (of_int n) = n"
  by (simp add: rne_def)

lemma rne_lower: "\<lfloor>x\<rfloor> \<le> rne x"
  by (simp add: rne_def Let_def)

lemma rne_upper: "rne x \<le> \<lceil>x\<rceil>"
proof -
  have "of_int \<lfloor>x\<rfloor> \<noteq> x \<Longrightarrow> \<lfloor>x\<rfloor> + 1 \<le> \<lceil>x\<rceil>"
    by (metis ceiling_altdef order_refl)
  moreover have "x - of_int \<lfloor>x\<rfloor> \<ge> 1 / 2 \<Longrightarrow> of_int \<lfloor>x\<rfloor> \<noteq> x"
    by auto
  moreover have "\<lfloor>x\<rfloor> \<le> \<lceil>x\<rceil>" by (simp add: floor_le_ceiling) 
  ultimately show ?thesis
    by (auto simp: rne_def Let_def)
qed

lemma rne_mono: "x \<le> y \<Longrightarrow> rne x \<le> rne y"
proof -
  assume xy: "x \<le> y"
  then have fl: "\<lfloor>x\<rfloor> \<le> \<lfloor>y\<rfloor>" by (rule floor_mono)
  show ?thesis
  proof (cases "\<lfloor>x\<rfloor> = \<lfloor>y\<rfloor>")
    case True
    with xy have "x - of_int \<lfloor>x\<rfloor> \<le> y - of_int \<lfloor>y\<rfloor>" by simp
    with True show ?thesis by (auto simp: rne_def Let_def)
  next
    case False
    with fl have "\<lfloor>x\<rfloor> + 1 \<le> \<lfloor>y\<rfloor>" by simp
    moreover have "rne x \<le> \<lfloor>x\<rfloor> + 1" by (simp add: rne_def Let_def)
    ultimately show ?thesis using rne_lower [of y] by linarith
  qed
qed

lemma rne_error: "\<bar>of_int (rne x) - x\<bar> \<le> 1 / 2"
proof -
  define d where "d = x - of_int \<lfloor>x\<rfloor>"
  have d: "0 \<le> d" "d < 1" unfolding d_def by linarith+
  have r: "rne x = (if d < 1 / 2 then \<lfloor>x\<rfloor> else if 1 / 2 < d then \<lfloor>x\<rfloor> + 1
           else if even \<lfloor>x\<rfloor> then \<lfloor>x\<rfloor> else \<lfloor>x\<rfloor> + 1)"
    unfolding rne_def Let_def d_def ..
  have "rat_of_int (rne x) - x = rat_of_int (rne x) - of_int \<lfloor>x\<rfloor> - d"
    by (simp add: d_def)
  also have "\<bar>\<dots>\<bar> \<le> 1 / 2"
    unfolding r using d by (simp add: abs_if)
  finally show ?thesis .
qed

lemma ilog2_bounds:
  assumes "0 < x"
  shows "2 powi (ilog2 x) \<le> x" and "x < 2 powi (ilog2 x + 1)"
proof -
  show "2 powi (ilog2 x) \<le> x"
  proof (cases "1 \<le> x")
    case True
    define n where "n = nat \<lfloor>x\<rfloor>"
    have n: "0 < n" using True by (simp add: n_def)
    then have k: "0 < floorlog 2 n" by (simp add: floorlog_def)
    have "2 ^ (floorlog 2 n - 1) \<le> n" using floorlog_bounds [of n 2] n by simp
    then have "(2::rat) ^ (floorlog 2 n - 1) \<le> of_nat n"
      by (metis of_nat_le_iff of_nat_numeral of_nat_power)
    also have "\<dots> \<le> x" using True by (simp add: n_def)
    finally have "(2::rat) ^ (floorlog 2 n - 1) \<le> x" .
    moreover have "ilog2 x = int (floorlog 2 n - 1)" using True k by (simp add: ilog2_def bitlen_def n_def)
    ultimately show ?thesis by simp
  next
    case False
    define m where "m = nat (\<lceil>1 / x\<rceil> - 1)"
    define k where "k = floorlog 2 m"
    have x1: "1 < 1 / x" using False assms by simp
    then have "2 \<le> \<lceil>1 / x\<rceil>" by linarith
    then have m: "0 < m" by (simp add: m_def)
    have "m < 2 ^ k" using floorlog_bounds [of m 2] m by (simp add: k_def)
    then have "m + 1 \<le> 2 ^ k" by simp
    then have "(of_nat (m + 1) :: rat) \<le> 2 ^ k" 
      by (metis of_nat_le_iff of_nat_numeral of_nat_power)
    moreover have "1 / x \<le> of_nat (m + 1)" using m by (simp add: m_def) linarith
    ultimately have "1 / x \<le> 2 ^ k" by linarith
    then have "1 / 2 ^ k \<le> x" using assms by (simp add: field_simps)
    moreover have "ilog2 x = - int k" using False by (simp add: ilog2_def bitlen_def k_def m_def)
    ultimately show ?thesis by (simp add: power_int_minus_divide)
  qed
  show "x < 2 powi (ilog2 x + 1)"
  proof (cases "1 \<le> x")
    case True
    define n where "n = nat \<lfloor>x\<rfloor>"
    have n: "0 < n" using True by (simp add: n_def)
    then have k: "0 < floorlog 2 n" by (simp add: floorlog_def)
    have "n < 2 ^ floorlog 2 n" using floorlog_bounds [of n 2] n by simp
    then have "n + 1 \<le> 2 ^ floorlog 2 n" by simp
    then have "(of_nat (n + 1) :: rat) \<le> 2 ^ floorlog 2 n"
      by (metis of_nat_le_iff of_nat_numeral of_nat_power)
    moreover have "x < of_nat (n + 1)" using True by (simp add: n_def) linarith
    ultimately have "x < 2 ^ floorlog 2 n" by linarith
    moreover have "ilog2 x + 1 = int (floorlog 2 n)" using True k by (simp add: ilog2_def bitlen_def n_def)
    ultimately show ?thesis by simp
  next
    case False
    define m where "m = nat (\<lceil>1 / x\<rceil> - 1)"
    define k where "k = floorlog 2 m"
    have x1: "1 < 1 / x" using False assms by simp
    then have "2 \<le> \<lceil>1 / x\<rceil>" by linarith
    then have m: "0 < m" by (simp add: m_def)
    then have k: "0 < k" by (simp add: k_def floorlog_def)
    have "2 ^ (k - 1) \<le> m" using floorlog_bounds [of m 2] m by (simp add: k_def)
    then have "(2::rat) ^ (k - 1) \<le> of_nat m"
      by (metis of_nat_le_iff of_nat_numeral of_nat_power)
    moreover have "of_nat m < 1 / x" using m by (simp add: m_def) linarith
    ultimately have "2 ^ (k - 1) < 1 / x" by linarith
    then have "x < 1 / 2 ^ (k - 1)" using assms by (simp add: field_simps)
    moreover have "ilog2 x + 1 = - int (k - 1)" using False k by (simp add: ilog2_def bitlen_def k_def m_def)
    ultimately show ?thesis by (simp add: power_int_minus_divide)
  qed
qed

lemma pow2_less_iff: "(2::rat) powi a < 2 powi b \<longleftrightarrow> a < b"
proof
  assume "(2::rat) powi a < 2 powi b"
  then have "\<not> (2::rat) powi b \<le> 2 powi a" by simp
  then have "\<not> b \<le> a" using power_int_increasing [of b a "2::rat"] by auto
  then show "a < b" by simp
next
  assume "a < b"
  then show "(2::rat) powi a < 2 powi b" by (rule power_int_strict_increasing) simp
qed

lemma pow2_split: "(2::rat) powi (a + b) = 2 powi a * 2 powi b"
  by (rule power_int_add) simp

lemma ulp_pos: "0 < ulp x"
  by (simp add: ulp_def)

lemma fl64_minus: "fl64 (- x) = - fl64 x"
  by (simp add: fl64_def)

lemma fl64_pos: "0 < x \<Longrightarrow> fl64 x = of_int (rne (x / ulp x)) * ulp x"
  by (simp add: fl64_def)

lemma fl64_nonneg: "0 \<le> x \<Longrightarrow> 0 \<le> fl64 x"
proof (cases "x = 0")
  case True then show ?thesis by (simp add: fl64_def)
next
  case False
  assume "0 \<le> x"
  with False have x: "0 < x" by simp
  have "0 \<le> x / ulp x" using x ulp_pos [of x] by simp
  then have "0 \<le> \<lfloor>x / ulp x\<rfloor>" by simp
  then have "0 \<le> rne (x / ulp x)" using rne_lower [of "x / ulp x"] by linarith
  then show ?thesis using x ulp_pos [of x] by (simp add: fl64_pos)
qed

lemma ilog2_less: "0 < y \<Longrightarrow> y < 2 powi (e + 1) \<Longrightarrow> ilog2 y \<le> e"
proof -
  assume y: "0 < y" "y < 2 powi (e + 1)"
  have "(2::rat) powi (ilog2 y) < 2 powi (e + 1)"
    using ilog2_bounds(1) [OF y(1)] y(2) by linarith
  then have "ilog2 y < e + 1"
    by (simp add: pow2_less_iff)
  then show ?thesis by simp
qed

lemma fl64_upper:
  assumes "0 < x"
  shows "fl64 x \<le> 2 powi (max (ilog2 x) (- 1022) + 1)"
proof -
  define E where "E = max (ilog2 x) (- 1022)"
  have u: "ulp x = 2 powi (E - 52)" by (simp add: ulp_def E_def)
  have "x < 2 powi (ilog2 x + 1)" by (rule ilog2_bounds(2) [OF assms])
  also have "\<dots> \<le> 2 powi (E + 1)"
    by (rule power_int_increasing) (simp_all add: E_def)
  finally have "x / ulp x \<le> 2 powi (E + 1) / 2 powi (E - 52)"
    unfolding u by (simp add: divide_right_mono)
  also have "\<dots> = 2 powi 53"
    by (simp add: power_int_diff [symmetric])
  also have "\<dots> = rat_of_int (2 ^ 53)" by simp
  finally have "rne (x / ulp x) \<le> rne (rat_of_int (2 ^ 53))" by (rule rne_mono)
  then have "rne (x / ulp x) \<le> 2 ^ 53" by (simp only: rne_of_int)
  then have "rat_of_int (rne (x / ulp x)) \<le> 2 powi 53"
    by (metis of_int_le_iff of_int_numeral of_int_power power_int_numeral)
  then have "rat_of_int (rne (x / ulp x)) * ulp x \<le> 2 powi 53 * 2 powi (E - 52)"
    unfolding u by (simp add: mult_right_mono)
  also have "\<dots> = 2 powi (53 + (E - 52))"
    by (simp only: pow2_split)
  also have "53 + (E - 52) = E + 1" by simp
  finally show ?thesis using assms by (simp add: fl64_pos E_def)
qed

lemma fl64_lower:
  assumes "0 < x" and "- 1022 \<le> ilog2 x"
  shows "2 powi (ilog2 x) \<le> fl64 x"
proof -
  define E where "E = ilog2 x"
  have u: "ulp x = 2 powi (E - 52)" using assms(2) by (simp add: ulp_def E_def max_def)
  have "(2::rat) powi 52 = 2 powi E / 2 powi (E - 52)"
    by (simp add: power_int_diff [symmetric])
  also have "\<dots> \<le> x / ulp x"
    unfolding u using ilog2_bounds(1) [OF assms(1)] by (simp add: divide_right_mono E_def)
  finally have "rat_of_int (2 ^ 52) \<le> x / ulp x" by simp
  then have "rne (rat_of_int (2 ^ 52)) \<le> rne (x / ulp x)" by (rule rne_mono)
  then have "2 ^ 52 \<le> rne (x / ulp x)" by (simp only: rne_of_int)
  then have "2 powi 52 \<le> rat_of_int (rne (x / ulp x))"
    by (metis of_int_le_iff of_int_numeral of_int_power power_int_numeral)
  then have "2 powi 52 * 2 powi (E - 52) \<le> rat_of_int (rne (x / ulp x)) * ulp x"
    unfolding u by (simp add: mult_right_mono)
  moreover have "(2::rat) powi 52 * 2 powi (E - 52) = 2 powi (52 + (E - 52))"
    by (simp only: pow2_split)
  moreover have "52 + (E - 52) = E" by simp
  ultimately show ?thesis using assms by (simp add: fl64_pos E_def)
qed

lemma fl64_mono_pos:
  assumes "0 < x" and "x \<le> y"
  shows "fl64 x \<le> fl64 y"
proof -
  have y: "0 < y" using assms by simp
  have "(2::rat) powi (ilog2 x) < 2 powi (ilog2 y + 1)"
    using ilog2_bounds(1) [OF assms(1)] ilog2_bounds(2) [OF y] assms(2) by linarith
  then have "ilog2 x < ilog2 y + 1" by (simp add: pow2_less_iff)
  then have le: "ilog2 x \<le> ilog2 y" by simp
  show ?thesis
  proof (cases "max (ilog2 x) (- 1022) = max (ilog2 y) (- 1022)")
    case True
    then have u: "ulp x = ulp y" by (simp add: ulp_def)
    have "x / ulp y \<le> y / ulp y" using assms(2) ulp_pos [of y] by (simp add: divide_right_mono)
    then have "rne (x / ulp y) \<le> rne (y / ulp y)" by (rule rne_mono)
    then have "rat_of_int (rne (x / ulp y)) * ulp y \<le> rat_of_int (rne (y / ulp y)) * ulp y"
      using ulp_pos [of y] by (simp add: mult_right_mono)
    then show ?thesis using assms(1) y by (simp add: fl64_pos u)
  next
    case False
    with le have lt: "max (ilog2 x) (- 1022) < ilog2 y" and n: "- 1022 \<le> ilog2 y"
      by (auto simp: max_def split: if_splits)
    have "fl64 x \<le> 2 powi (max (ilog2 x) (- 1022) + 1)" by (rule fl64_upper [OF assms(1)])
    also have "\<dots> \<le> 2 powi (ilog2 y)"
    proof (rule power_int_increasing)
      show "max (ilog2 x) (- 1022) + 1 \<le> ilog2 y" using lt by linarith
    qed simp
    also have "\<dots> \<le> fl64 y" by (rule fl64_lower [OF y n])
    finally show ?thesis .
  qed
qed

lemma fl64_mono: "x \<le> y \<Longrightarrow> fl64 x \<le> fl64 y"
proof -
  assume xy: "x \<le> y"
  consider "0 < x" | "x \<le> 0" "0 \<le> y" | "y < 0" using xy by linarith
  then show ?thesis
  proof cases
    case 1 then show ?thesis using xy by (rule fl64_mono_pos)
  next
    case 2
    have "fl64 x = - fl64 (- x)" by (simp add: fl64_minus)
    moreover have "0 \<le> fl64 (- x)" using 2 by (simp add: fl64_nonneg)
    moreover have "0 \<le> fl64 y" using 2 by (simp add: fl64_nonneg)
    ultimately show ?thesis by linarith
  next
    case 3
    then have "fl64 (- y) \<le> fl64 (- x)" using xy by (intro fl64_mono_pos) simp_all
    then show ?thesis by (simp add: fl64_minus)
  qed
qed

lemma fl64_fixed:
  assumes "0 < y" and "y = rat_of_int m * 2 powi k" and "max (ilog2 y) (- 1022) - 52 \<le> k"
  shows "fl64 y = y"
proof -
  define j where "j = max (ilog2 y) (- 1022) - 52"
  have u: "ulp y = 2 powi j" by (simp add: ulp_def j_def)
  have jk: "0 \<le> k - j" using assms(3) by (simp add: j_def)
  have "y / ulp y = rat_of_int m * (2 powi k / 2 powi j)" unfolding u by (simp add: assms(2))
  also have "2 powi k / 2 powi j = (2::rat) powi (k - j)" by (simp add: power_int_diff)
  also have "\<dots> = 2 ^ nat (k - j)" using jk by (simp add: power_int_nonneg_exp)
  also have "rat_of_int m * 2 ^ nat (k - j) = rat_of_int (m * 2 ^ nat (k - j))" by simp
  finally have "rne (y / ulp y) = m * 2 ^ nat (k - j)" by (simp only: rne_of_int)
  then have "fl64 y = rat_of_int (m * 2 ^ nat (k - j)) * 2 powi j"
    using assms(1) by (simp add: fl64_pos u)
  also have "\<dots> = rat_of_int m * (2 powi (k - j) * 2 powi j)"
    using jk by (simp add: power_int_nonneg_exp)
  also have "2 powi (k - j) * 2 powi j = (2::rat) powi k" by (simp add: power_int_add [symmetric])
  finally show ?thesis by (simp add: assms(2))
qed

lemma fl64_idem_pos:
  assumes "0 < x"
  shows "fl64 (fl64 x) = fl64 x"
proof (cases "fl64 x = 0")
  case True then show ?thesis by (simp add: fl64_def)
next
  case False
  define E where "E = max (ilog2 x) (- 1022)"
  define y where "y = fl64 x"
  have y: "0 < y" using False fl64_nonneg [of x] assms by (simp add: y_def)
  have rep: "y = rat_of_int (rne (x / ulp x)) * 2 powi (E - 52)"
    using assms by (simp add: y_def fl64_pos ulp_def E_def)
  have up: "y \<le> 2 powi (E + 1)" unfolding y_def E_def by (rule fl64_upper [OF assms])
  show ?thesis
  proof (cases "y = 2 powi (E + 1)")
    case True
    then have "ilog2 y \<le> E + 1" using y by (intro ilog2_less) (simp_all add: pow2_less_iff)
    moreover have "- 1022 \<le> E" by (simp add: E_def)
    ultimately have "max (ilog2 y) (- 1022) - 52 \<le> E + 1" by simp
    moreover have "y = rat_of_int 1 * 2 powi (E + 1)" using True by simp
    ultimately have "fl64 y = y" using y by (intro fl64_fixed)
    then show ?thesis by (simp add: y_def)
  next
    case False
    with up have "y < 2 powi (E + 1)" by simp
    then have "ilog2 y \<le> E" using y by (intro ilog2_less)
    moreover have "- 1022 \<le> E" by (simp add: E_def)
    ultimately have "max (ilog2 y) (- 1022) - 52 \<le> E - 52" by simp
    then have "fl64 y = y" using y rep by (intro fl64_fixed)
    then show ?thesis by (simp add: y_def)
  qed
qed

lemma fl64_idem: "fl64 (fl64 x) = fl64 x"
proof -
  consider "0 < x" | "x = 0" | "x < 0" by linarith
  then show ?thesis
  proof cases
    case 1 then show ?thesis by (rule fl64_idem_pos)
  next
    case 2 then show ?thesis by (simp add: fl64_def)
  next
    case 3
    then have "fl64 (fl64 (- x)) = fl64 (- x)" by (intro fl64_idem_pos) simp
    then show ?thesis by (simp add: fl64_minus)
  qed
qed

text \<open>
  Evaluating the rounding on numerals: floors and ceilings of rational numerals,
  and the recursion of \<open>bitlen\<close>.
\<close>

lemma floor_rat_numeral: "\<lfloor>numeral a / numeral b :: rat\<rfloor> = numeral a div numeral b"
  by (metis floor_divide_of_int_eq of_int_numeral)

lemma ceiling_rat_numeral: "\<lceil>numeral a / numeral b :: rat\<rceil> = - (- numeral a div numeral b)"
  by (metis ceiling_def divide_minus_left floor_divide_of_int_eq of_int_neg_numeral of_int_numeral)

lemmas fl64_eval = fl64_def ulp_def ilog2_def rne_def Let_def compute_bitlen
  floor_rat_numeral ceiling_rat_numeral

lemma fl64_0: "fl64 0 = 0"
  by (simp add: fl64_def)

lemma fl64_1: "fl64 1 = 1"
  by (simp add: fl64_eval)

lemma fl64_half: "fl64 (1 / 2) = 1 / 2"
  by (simp add: fl64_eval)

text \<open>
  Representable values are fixed, values of at most half the least subnormal
  round to zero, and in the normal range the relative error is at most
  \<open>2\<^sup>-\<^sup>5\<^sup>3\<close>.
\<close>

lemma fl64_underflow:
  assumes "0 \<le> x" and "x \<le> 2 powi (- 1075)"
  shows "fl64 x = 0"
proof (cases "x = 0")
  case True
  then show ?thesis by (simp add: fl64_def)
next
  case False
  with assms(1) have x: "0 < x" by simp
  have "(2::rat) powi (- 1075) < 2 powi (- 1075 + 1)" by (simp only: pow2_less_iff)
  with assms(2) have "x < 2 powi (- 1075 + 1)" by linarith
  then have "ilog2 x \<le> - 1075" by (rule ilog2_less [OF x])
  then have u: "ulp x = 2 powi (- 1074)" by (simp add: ulp_def max_def)
  have "(2::rat) powi (- 1074) = 2 powi (1 + - 1075)" by simp
  also have "\<dots> = 2 powi 1 * 2 powi (- 1075)" by (rule pow2_split)
  finally have h: "2 powi (- 1075) = (2::rat) powi (- 1074) / 2" by simp
  have d0: "0 < x / 2 powi (- 1074)" using x by simp
  have "x / 2 powi (- 1074) \<le> (2 powi (- 1074) / 2) / 2 powi (- 1074)"
    using assms(2) unfolding h by (intro divide_right_mono) simp_all
  also have "\<dots> = 1 / 2" by simp
  finally have d1: "x / 2 powi (- 1074) \<le> 1 / 2" .
  have "\<lfloor>x / 2 powi (- 1074)\<rfloor> = 0" using d0 d1 by (intro floor_unique) simp_all
  then have "rne (x / 2 powi (- 1074)) = 0" using d1 by (simp add: rne_def Let_def)
  then show ?thesis using x by (simp add: fl64_pos u)
qed

lemma fl64_dyadic:
  assumes "0 < m" and "m < 2 ^ 53" and "- 1074 \<le> k"
  shows "fl64 (rat_of_int m * 2 powi k) = rat_of_int m * 2 powi k"
proof (rule fl64_fixed [OF _ refl])
  show pos: "0 < rat_of_int m * 2 powi k" using assms(1) by simp
  have "rat_of_int m < rat_of_int (2 ^ 53)" using assms(2) by (simp only: of_int_less_iff)
  then have "rat_of_int m * 2 powi k < 2 powi 53 * 2 powi k" by simp
  also have "\<dots> = 2 powi (52 + k + 1)" by (simp only: pow2_split [symmetric]) simp
  finally have "ilog2 (rat_of_int m * 2 powi k) \<le> 52 + k" by (rule ilog2_less [OF pos])
  then show "max (ilog2 (rat_of_int m * 2 powi k)) (- 1022) - 52 \<le> k" using assms(3) by simp
qed

lemma fl64_rel:
  assumes "2 powi (- 1022) \<le> x"
  shows "\<bar>fl64 x - x\<bar> \<le> x / 2 ^ 53"
proof -
  have x: "0 < x" using assms by (rule less_le_trans [rotated]) simp
  have "(2::rat) powi (- 1022) < 2 powi (ilog2 x + 1)"
    using assms ilog2_bounds(2) [OF x] by linarith
  then have "- 1022 < ilog2 x + 1" by (simp only: pow2_less_iff)
  then have n: "- 1022 \<le> ilog2 x" by simp
  define E where "E = ilog2 x"
  define u :: rat where "u = 2 powi (E - 52)"
  have u: "ulp x = u" using n by (simp add: ulp_def u_def E_def max_def)
  have u0: "0 < u" by (simp add: u_def)
  have "fl64 x - x = (rat_of_int (rne (x / u)) - x / u) * u"
    using x u0 by (simp add: fl64_pos u field_simps)
  then have "\<bar>fl64 x - x\<bar> = \<bar>rat_of_int (rne (x / u)) - x / u\<bar> * u"
    using u0 by (simp add: abs_mult)
  also have "\<dots> \<le> 1 / 2 * u"
    using rne_error [of "x / u"] u0 by (intro mult_right_mono) simp_all
  also have "1 / 2 * u = 2 powi E / 2 ^ 53"
  proof -
    have "(2::rat) powi E = 2 powi (52 + (E - 52))" by simp
    also have "\<dots> = 2 powi 52 * u" unfolding u_def by (rule pow2_split)
    finally show ?thesis by simp
  qed
  also have "\<dots> \<le> x / 2 ^ 53"
    using ilog2_bounds(1) [OF x] by (simp add: E_def divide_right_mono)
  finally show ?thesis .
qed

lemma fl64_rel_bounds:
  assumes "2 powi (- 1022) \<le> x"
  shows "(1 - 1 / 2 ^ 53) * x \<le> fl64 x" and "fl64 x \<le> (1 + 1 / 2 ^ 53) * x"
proof -
  define d where "d = x / 2 ^ 53"
  have "\<bar>fl64 x - x\<bar> \<le> d" unfolding d_def by (rule fl64_rel [OF assms])
  then have "x - d \<le> fl64 x" "fl64 x \<le> x + d" by linarith+
  moreover have "(1 - 1 / 2 ^ 53) * x = x - d" "(1 + 1 / 2 ^ 53) * x = x + d"
    unfolding d_def by (simp_all add: algebra_simps)
  ultimately show "(1 - 1 / 2 ^ 53) * x \<le> fl64 x" and "fl64 x \<le> (1 + 1 / 2 ^ 53) * x"
    by simp_all
qed

lemma rounding_fl64: "rounding fl64"
  unfolding rounding_def using fl64_mono fl64_idem fl64_0 fl64_half fl64_1 by blast

lemma rounding_exact: "rounding exact"
  by (simp add: rounding_def exact_def)

section \<open>The loop and the update, unfolded\<close>

lemma likelihoods_foldl:
  "likelihoods rnd (a, b) evs =
     (foldl (\<lambda>l e. rnd (l * factor_d rnd e)) a evs,
      foldl (\<lambda>l e. rnd (l * factor_not_d rnd e)) b evs)"
  by (induction rnd "(a, b)" evs arbitrary: a b rule: likelihoods.induct) simp_all

lemma likelihoods_spec:
  "likelihoods rnd (1, 1) evs = (likelihood_d rnd evs, likelihood_not_d rnd evs)"
  by (simp add: likelihoods_foldl likelihood_d_def likelihood_not_d_def)

lemma update_unfold:
  "update rnd self tests results =
     (if posterior_history self = [] then (Inl IndexError, self)
      else if p_evidence rnd (last (posterior_history self)) (zip tests results) = 0
      then (Inl ZeroDivisionError, self)
      else (Inr (bayes_posterior rnd (last (posterior_history self)) (zip tests results)),
            self\<lparr>posterior_history := posterior_history self
               @ [bayes_posterior rnd (last (posterior_history self)) (zip tests results)]\<rparr>))"
  by (simp add: update_def likelihoods_spec p_evidence_def bayes_posterior_def Let_def)

lemmas model_eval = update_def p_evidence_def bayes_posterior_def likelihood_d_def
  likelihood_not_d_def exact_def Let_def

section \<open>Consequences of a rounding being monotone\<close>

lemma rounding_ge_half:
  assumes "rounding rnd" and "1 / 2 \<le> x"
  shows "1 / 2 \<le> rnd x"
  using assms unfolding rounding_def by metis

lemma rounding_nonneg:
  assumes "rounding rnd" and "0 \<le> x"
  shows "0 \<le> rnd x"
  using assms unfolding rounding_def by metis

lemma rounding_le_one:
  assumes "rounding rnd" and "x \<le> 1"
  shows "rnd x \<le> 1"
  using assms unfolding rounding_def by metis

lemma unit_interval_mult:
  fixes a b :: rat
  assumes "0 \<le> a" "a \<le> 1" "0 \<le> b" "b \<le> 1"
  shows "0 \<le> a * b" and "a * b \<le> 1"
  using assms by (simp_all add: mult_le_one)

lemma rounding_unit:
  assumes "rounding rnd" and "0 \<le> x" and "x \<le> 1"
  shows "0 \<le> rnd x \<and> rnd x \<le> 1"
  using assms by (simp add: rounding_nonneg rounding_le_one)

lemma factor_d_unit:
  assumes "rounding rnd" and "0 \<le> fst (fst e)" and "fst (fst e) \<le> 1"
  shows "0 \<le> factor_d rnd e \<and> factor_d rnd e \<le> 1"
proof -
  obtain s f outcome where e: "e = ((s, f), outcome)" by (cases e) auto
  show ?thesis using assms by (auto simp: e intro: rounding_nonneg rounding_le_one)
qed

lemma factor_not_d_unit:
  assumes "rounding rnd" and "0 \<le> snd (fst e)" and "snd (fst e) \<le> 1"
  shows "0 \<le> factor_not_d rnd e \<and> factor_not_d rnd e \<le> 1"
proof -
  obtain s f outcome where e: "e = ((s, f), outcome)" by (cases e) auto
  show ?thesis using assms by (auto simp: e intro: rounding_nonneg rounding_le_one)
qed

lemma product_unit:
  assumes "rounding rnd" and "\<forall>e \<in> set evs. 0 \<le> g e \<and> g e \<le> 1" and "0 \<le> a" and "a \<le> 1"
  shows "0 \<le> foldl (\<lambda>l e. rnd (l * g e)) a evs \<and> foldl (\<lambda>l e. rnd (l * g e)) a evs \<le> 1"
  using assms(2-)
proof (induction evs arbitrary: a)
  case Nil
  then show ?case by simp
next
  case (Cons e evs)
  have g: "0 \<le> g e" "g e \<le> 1" using Cons.prems(1) by simp_all
  have "0 \<le> a * g e" "a * g e \<le> 1"
    using unit_interval_mult [OF Cons.prems(2,3) g] by simp_all
  then have "0 \<le> rnd (a * g e)" "rnd (a * g e) \<le> 1"
    using rounding_unit [OF assms(1)] by simp_all
  moreover have "\<forall>e \<in> set evs. 0 \<le> g e \<and> g e \<le> 1" using Cons.prems(1) by simp
  ultimately show ?case using Cons.IH by simp
qed

lemma likelihood_unit:
  assumes "rounding rnd" and "valid_tests tests"
  shows "0 \<le> likelihood_d rnd (zip tests results) \<and> likelihood_d rnd (zip tests results) \<le> 1"
    and "0 \<le> likelihood_not_d rnd (zip tests results) \<and> likelihood_not_d rnd (zip tests results) \<le> 1"
proof -
  have v: "0 \<le> fst (fst e) \<and> fst (fst e) \<le> 1 \<and> 0 \<le> snd (fst e) \<and> snd (fst e) \<le> 1"
    if "e \<in> set (zip tests results)" for e
  proof -
    obtain t r where e: "e = (t, r)" by (cases e)
    have "fst e \<in> set tests" using that unfolding e by (auto dest: set_zip_leftD)
    then show ?thesis using assms(2) by (auto simp: valid_tests_def)
  qed
  have "\<forall>e \<in> set (zip tests results). 0 \<le> factor_d rnd e \<and> factor_d rnd e \<le> 1"
    using v factor_d_unit [OF assms(1)] by blast
  then show "0 \<le> likelihood_d rnd (zip tests results) \<and> likelihood_d rnd (zip tests results) \<le> 1"
    unfolding likelihood_d_def by (intro product_unit [OF assms(1)]) simp_all
  have "\<forall>e \<in> set (zip tests results). 0 \<le> factor_not_d rnd e \<and> factor_not_d rnd e \<le> 1"
    using v factor_not_d_unit [OF assms(1)] by blast
  then show "0 \<le> likelihood_not_d rnd (zip tests results) \<and> likelihood_not_d rnd (zip tests results) \<le> 1"
    unfolding likelihood_not_d_def by (intro product_unit [OF assms(1)]) simp_all
qed

lemma posterior_unit:
  assumes r: "rounding rnd" and p: "0 \<le> p" "p \<le> 1"
    and ld: "0 \<le> ld" "ld \<le> 1" and lnd: "0 \<le> lnd"
    and nz: "rnd (rnd (p * ld) + rnd (rnd (1 - p) * lnd)) \<noteq> 0"
  shows "0 \<le> rnd (rnd (p * ld) / rnd (rnd (p * ld) + rnd (rnd (1 - p) * lnd)))
       \<and> rnd (rnd (p * ld) / rnd (rnd (p * ld) + rnd (rnd (1 - p) * lnd))) \<le> 1"
proof -
  define N where "N = rnd (p * ld)"
  define M where "M = rnd (rnd (1 - p) * lnd)"
  define D where "D = rnd (N + M)"
  have mono: "\<And>x y. x \<le> y \<Longrightarrow> rnd x \<le> rnd y" and idem: "\<And>x. rnd (rnd x) = rnd x"
    using r by (simp_all add: rounding_def)
  have N0: "0 \<le> N" unfolding N_def using p ld by (intro rounding_nonneg [OF r]) simp
  have "0 \<le> rnd (1 - p)" using p by (intro rounding_nonneg [OF r]) simp
  then have M0: "0 \<le> M" unfolding M_def using lnd by (intro rounding_nonneg [OF r]) simp
  have "rnd N \<le> rnd (N + M)" using M0 by (intro mono) simp
  then have ND: "N \<le> D" by (simp add: D_def N_def idem)
  have D0: "0 < D" using nz N0 ND by (simp add: D_def N_def M_def)
  have "0 \<le> N / D" "N / D \<le> 1" using N0 ND D0 by simp_all
  then have "0 \<le> rnd (N / D) \<and> rnd (N / D) \<le> 1" by (rule rounding_unit [OF r])
  then show ?thesis by (simp add: N_def M_def D_def)
qed

lemma update_unit_history:
  assumes "rounding rnd" and "unit_history self" and "valid_tests tests"
  shows "unit_history (snd (update rnd self tests results))"
proof (cases "posterior_history self = [] \<or>
    p_evidence rnd (last (posterior_history self)) (zip tests results) = 0")
  case True
  then show ?thesis using assms(2) by (auto simp: update_unfold)
next
  case False
  then have ne: "posterior_history self \<noteq> []"
    and nz: "p_evidence rnd (last (posterior_history self)) (zip tests results) \<noteq> 0" by simp_all
  have "last (posterior_history self) \<in> set (posterior_history self)" using ne by simp
  then have p: "0 \<le> last (posterior_history self)" "last (posterior_history self) \<le> 1"
    using assms(2) by (simp_all add: unit_history_def)
  have "0 \<le> bayes_posterior rnd (last (posterior_history self)) (zip tests results)
      \<and> bayes_posterior rnd (last (posterior_history self)) (zip tests results) \<le> 1"
    unfolding bayes_posterior_def p_evidence_def
    using likelihood_unit [OF assms(1,3), of results] nz
    by (intro posterior_unit [OF assms(1) p]) (simp_all add: p_evidence_def)
  then show ?thesis using ne nz assms(2) by (simp add: update_unfold unit_history_def)
qed

lemma updates_unit_history:
  assumes "rounding rnd" and "unit_history self" and "\<forall>(tests, results) \<in> set calls. valid_tests tests"
  shows "unit_history (updates rnd self calls)"
  using assms(2,3)
proof (induction calls arbitrary: self)
  case Nil
  then show ?case by simp
next
  case (Cons c calls)
  obtain tests results where c: "c = (tests, results)" by (cases c)
  have "valid_tests tests" using Cons.prems(2) c by simp
  then have "unit_history (snd (update rnd self tests results))"
    using Cons.prems(1) by (intro update_unit_history [OF assms(1)])
  moreover have "\<forall>(tests, results) \<in> set calls. valid_tests tests" using Cons.prems(2) by simp
  ultimately show ?case using Cons.IH c by simp
qed

lemma p_evidence_Nil_pos:
  assumes "rounding rnd" and "0 \<le> p" and "p \<le> 1"
  shows "0 < p_evidence rnd p []"
proof -
  have idem: "rnd (rnd (1 - p)) = rnd (1 - p)" using assms(1) by (simp add: rounding_def)
  have a: "0 \<le> rnd p" and b: "0 \<le> rnd (1 - p)"
    using assms by (simp_all add: rounding_nonneg)
  have "1 / 2 \<le> rnd p + rnd (1 - p)"
  proof (cases "1 / 2 \<le> p")
    case True
    then have "1 / 2 \<le> rnd p" by (rule rounding_ge_half [OF assms(1)])
    with b show ?thesis by linarith
  next
    case False
    then have "1 / 2 \<le> 1 - p" by simp
    then have "1 / 2 \<le> rnd (1 - p)" by (rule rounding_ge_half [OF assms(1)])
    with a show ?thesis by linarith
  qed
  then have "1 / 2 \<le> rnd (rnd p + rnd (1 - p))" by (rule rounding_ge_half [OF assms(1)])
  then show ?thesis
    by (simp add: p_evidence_def likelihood_d_def likelihood_not_d_def idem)
qed

section \<open>Rounding errors of a test without discriminating power\<close>

text \<open>
  With \<open>a = 1 - 2\<^sup>-\<^sup>5\<^sup>3\<close> and \<open>b = 1 + 2\<^sup>-\<^sup>5\<^sup>3\<close>: when both likelihoods are the same
  \<open>L\<close> and every operation has relative error within \<open>[a, b]\<close>, the quotient
  \<open>N / D\<close> lies within \<open>[a p / b\<^sup>3, b p / a\<^sup>3]\<close>, and the rounded quotient within the
  tolerance \<open>t\<close> of \<open>p\<close>.
\<close>

lemma null_test_quotient:
  fixes a b p L q N M D :: rat
  assumes a: "0 < a" "a \<le> 1" and b: "1 \<le> b"
    and p: "0 < p" "p < 1" and L: "0 < L"
    and q: "a * (1 - p) \<le> q" "q \<le> b * (1 - p)"
    and N: "a * (p * L) \<le> N" "N \<le> b * (p * L)"
    and M: "a * (q * L) \<le> M" "M \<le> b * (q * L)"
    and D: "a * (N + M) \<le> D" "D \<le> b * (N + M)"
  shows "0 < D" and "a * p / b ^ 3 \<le> N / D" and "N / D \<le> b * p / a ^ 3"
proof -
  have b0: "0 < b" using b by simp
  have pL: "0 < p * L" using p L by simp
  have N0: "0 < N" using N(1) a(1) pL by (meson less_le_trans mult_pos_pos)
  have q0: "0 \<le> q" using q(1) a(1) p(2) by (meson diff_ge_0_iff_ge less_imp_le mult_nonneg_nonneg order_trans)
  have M0: "0 \<le> M" using M(1) a(1) q0 L by (meson less_imp_le mult_nonneg_nonneg order_trans)
  \<comment> \<open>the sum lies between \<open>a\<^sup>2 L\<close> and \<open>b\<^sup>2 L\<close>\<close>
  have "b * (q * L) \<le> b * (b * (1 - p) * L)"
    using q(2) b0 L by (intro mult_left_mono mult_right_mono) simp_all
  moreover have "b * (p * L) \<le> b * (b * p * L)"
  proof -
    have "1 * (p * L) \<le> b * (p * L)" using b pL by (intro mult_right_mono) simp_all
    then show ?thesis using b0 by (simp add: mult.assoc)
  qed
  ultimately have "N + M \<le> b * (b * p * L) + b * (b * (1 - p) * L)"
    using N(2) M(2) by linarith
  also have "\<dots> = b ^ 2 * L" by (simp add: power2_eq_square algebra_simps)
  finally have S_up: "N + M \<le> b ^ 2 * L" .
  have "a * (a * (1 - p) * L) \<le> a * (q * L)"
    using q(1) a(1) L by (intro mult_left_mono mult_right_mono) simp_all
  moreover have "a * (a * p * L) \<le> a * (p * L)"
    using a pL by (intro mult_left_mono) (simp_all add: mult.assoc mult_left_le_one_le)
  ultimately have "a * (a * p * L) + a * (a * (1 - p) * L) \<le> N + M"
    using N(1) M(1) by linarith
  moreover have "a * (a * p * L) + a * (a * (1 - p) * L) = a ^ 2 * L"
    by (simp add: power2_eq_square algebra_simps)
  ultimately have S_lo: "a ^ 2 * L \<le> N + M" by simp
  have "a * (a ^ 2 * L) \<le> a * (N + M)" using S_lo a(1) by (intro mult_left_mono) simp_all
  then have D_lo: "a ^ 3 * L \<le> D" using D(1) by (simp add: power3_eq_cube power2_eq_square mult.assoc)
  have "b * (N + M) \<le> b * (b ^ 2 * L)" using S_up b0 by (intro mult_left_mono) simp_all
  then have D_up: "D \<le> b ^ 3 * L" using D(2) by (simp add: power3_eq_cube power2_eq_square mult.assoc)
  have aL: "0 < a ^ 3 * L" using a(1) L by simp
  then show D0: "0 < D" using D_lo by linarith
  have "N / D \<le> b * (p * L) / (a ^ 3 * L)"
    using N(2) D_lo aL N0 by (intro frac_le) simp_all
  also have "\<dots> = b * p / a ^ 3" using L by simp
  finally show "N / D \<le> b * p / a ^ 3" .
  have "a * (p * L) / (b ^ 3 * L) \<le> N / D"
    using N(1) D_up D0 N0 by (intro frac_le) simp_all
  moreover have "a * (p * L) / (b ^ 3 * L) = a * p / b ^ 3" using L by simp
  ultimately show "a * p / b ^ 3 \<le> N / D" by simp
qed

lemma null_test_error:
  fixes a b t p Q R :: rat
  assumes a: "0 < a" and b: "1 \<le> b"
    and tol: "b ^ 2 \<le> (1 + t) * a ^ 3" "(1 - t) * b ^ 3 \<le> a ^ 2" and t: "0 \<le> t"
    and p: "0 < p" "p < 1"
    and Q: "a * p / b ^ 3 \<le> Q" "Q \<le> b * p / a ^ 3"
    and R: "a * Q \<le> R" "R \<le> b * Q"
  shows "\<bar>R - p\<bar> \<le> t"
proof -
  have b0: "0 < b" using b by simp
  have pt: "p * t \<le> t" using t p mult_right_mono [of p 1 t] by simp
  have "b * Q \<le> b * (b * p / a ^ 3)" using Q(2) b0 by (intro mult_left_mono) simp_all
  then have "R \<le> b ^ 2 * p / a ^ 3" using R(2) by (simp add: power2_eq_square)
  also have "\<dots> \<le> (1 + t) * a ^ 3 * p / a ^ 3"
    using tol(1) p(1) a by (intro divide_right_mono mult_right_mono) simp_all
  also have "\<dots> = (1 + t) * p" using a by simp
  also have "\<dots> \<le> p + t" using pt by (simp add: algebra_simps)
  finally have up: "R \<le> p + t" .
  have "a * (a * p / b ^ 3) \<le> a * Q" using Q(1) a by (intro mult_left_mono) simp_all
  then have lo1: "a ^ 2 * p / b ^ 3 \<le> R" using R(1) by (simp add: power2_eq_square)
  have "(1 - t) * p = (1 - t) * b ^ 3 * p / b ^ 3" using b0 by simp
  also have "\<dots> \<le> a ^ 2 * p / b ^ 3"
    using tol(2) p(1) b0 by (intro divide_right_mono mult_right_mono) simp_all
  finally have "(1 - t) * p \<le> R" using lo1 by linarith
  moreover have "p - t \<le> (1 - t) * p" using pt by (simp add: algebra_simps)
  ultimately have "p - t \<le> R" by linarith
  with up show "\<bar>R - p\<bar> \<le> t" by (simp add: abs_le_iff)
qed

lemma fl64_unit_consts:
  "(0::rat) < 1 - 1 / 2 ^ 53" "(1 - 1 / 2 ^ 53 :: rat) \<le> 1" "(1::rat) \<le> 1 + 1 / 2 ^ 53"
  "(1 + 1 / 2 ^ 53 :: rat) ^ 2 \<le> (1 + 1 / 10 ^ 9) * (1 - 1 / 2 ^ 53) ^ 3"
  "(1 - 1 / 10 ^ 9) * (1 + 1 / 2 ^ 53 :: rat) ^ 3 \<le> (1 - 1 / 2 ^ 53) ^ 2"
  "(1 / 2 :: rat) \<le> (1 - 1 / 2 ^ 53) / (1 + 1 / 2 ^ 53) ^ 3"
  "(1 / 2 :: rat) \<le> 1 - 1 / 2 ^ 53"
  by (simp_all add: power2_eq_square power3_eq_cube)

lemma pow2_1021: "(2::rat) powi (- 1022) = 1 / 2 * 2 powi (- 1021)"
proof -
  have "(2::rat) powi (- 1022) = 2 powi (- 1 + - 1021)" by simp
  also have "\<dots> = 2 powi (- 1) * 2 powi (- 1021)" by (rule pow2_split)
  finally show ?thesis by simp
qed

section \<open>Algebra of the exact posterior\<close>

lemma exact_posterior_chain:
  fixes p a1 b1 a2 b2 :: rat
  assumes "p * a1 + (1 - p) * b1 \<noteq> 0" and "p * (a1 * a2) + (1 - p) * (b1 * b2) \<noteq> 0"
  defines "p1 \<equiv> p * a1 / (p * a1 + (1 - p) * b1)"
  shows "p1 * a2 + (1 - p1) * b2 \<noteq> 0"
    and "p1 * a2 / (p1 * a2 + (1 - p1) * b2) = p * (a1 * a2) / (p * (a1 * a2) + (1 - p) * (b1 * b2))"
proof -
  define E1 where "E1 = p * a1 + (1 - p) * b1"
  define E12 where "E12 = p * (a1 * a2) + (1 - p) * (b1 * b2)"
  have E1: "E1 \<noteq> 0" and E12: "E12 \<noteq> 0" using assms by (simp_all add: E1_def E12_def)
  have "1 - p1 = (E1 - p * a1) / E1"
    using E1 by (simp add: p1_def E1_def [symmetric] diff_divide_distrib)
  also have "E1 - p * a1 = (1 - p) * b1" by (simp add: E1_def)
  finally have q: "1 - p1 = (1 - p) * b1 / E1" .
  have e2: "p1 * a2 + (1 - p1) * b2 = E12 / E1"
    unfolding q unfolding p1_def E1_def [symmetric] using E1
    by (simp add: E12_def field_simps)
  show "p1 * a2 + (1 - p1) * b2 \<noteq> 0" using E1 E12 by (simp add: e2)
  have "p1 * a2 / (p1 * a2 + (1 - p1) * b2) = (p * a1 / E1 * a2) / (E12 / E1)"
    by (simp add: e2) (simp add: p1_def E1_def)
  also have "\<dots> = p * (a1 * a2) / E12" using E1 by simp
  finally show "p1 * a2 / (p1 * a2 + (1 - p1) * b2) = p * (a1 * a2) / (p * (a1 * a2) + (1 - p) * (b1 * b2))"
    by (simp add: E12_def)
qed

lemma zip_take_min:
  "zip (take (min (length xs) (length ys)) xs) (take (min (length xs) (length ys)) ys) = zip xs ys"
  by (simp add: take_zip [symmetric])

section \<open>Bookkeeping of relative rounding errors\<close>


















section \<open>The claims\<close>

text \<open>
  Claim C1.  A call of \<^verbatim>\<open>update\<close> returns a posterior exactly when the history is
  not empty and the total evidence probability is not zero, and the posterior it
  returns is \<open>(p_d * likelihood_d) / (p_d * likelihood_d + (1 - p_d) * likelihood_not_d)\<close>
  with \<open>p_d\<close> the last history entry and the likelihoods the left-to-right
  products of the factors of the paired items: the sensitivity and the false
  positive rate for a positive outcome, one minus each for a negative one.  Every
  operation is the rounded one of the program.
\<close>

theorem update_posterior_formula:
  assumes "p_d = last (posterior_history self)" and "evidence_list = zip tests results"
  shows "fst (update rnd self tests results) = Inr q \<longleftrightarrow>
     posterior_history self \<noteq> [] \<and> p_evidence rnd p_d evidence_list \<noteq> 0 \<and>
     q = rnd (rnd (p_d * likelihood_d rnd evidence_list)
              / rnd (rnd (p_d * likelihood_d rnd evidence_list)
                     + rnd (rnd (1 - p_d) * likelihood_not_d rnd evidence_list)))"
  unfolding assms by (auto simp: update_unfold bayes_posterior_def p_evidence_def)

theorem update_posterior_formula_witness:
  "fst (update fl64 \<lparr>prior = 1 / 2, posterior_history = [1 / 2]\<rparr>
         [(3 / 4, 1 / 4), (1 / 2, 1 / 8)] [True, False])
   = Inr (2844378712023471 / 4503599627370496)"
proof -
  have "posterior_history \<lparr>prior = 1 / 2, posterior_history = [1 / 2]\<rparr> \<noteq> [] \<and>
     p_evidence fl64 (1 / 2) [((3 / 4, 1 / 4), True), ((1 / 2, 1 / 8), False)] \<noteq> 0 \<and>
     2844378712023471 / 4503599627370496 =
       fl64 (fl64 (1 / 2 * likelihood_d fl64 [((3 / 4, 1 / 4), True), ((1 / 2, 1 / 8), False)])
             / fl64 (fl64 (1 / 2 * likelihood_d fl64 [((3 / 4, 1 / 4), True), ((1 / 2, 1 / 8), False)])
                     + fl64 (fl64 (1 - 1 / 2)
                             * likelihood_not_d fl64 [((3 / 4, 1 / 4), True), ((1 / 2, 1 / 8), False)])))"
    by (simp add: model_eval fl64_eval)
  then show ?thesis
    using update_posterior_formula [of "1 / 2" "\<lparr>prior = 1 / 2, posterior_history = [1 / 2]\<rparr>"
       "[((3 / 4, 1 / 4), True), ((1 / 2, 1 / 8), False)]"
       "[(3 / 4, 1 / 4), (1 / 2, 1 / 8)]" "[True, False]" fl64
       "2844378712023471 / 4503599627370496"]
    by simp
qed

text \<open>
  Claim C2, as stated, fails: with sensitivity \<open>0\<close>, false positive rate \<open>0\<close> and a
  positive outcome the division raises Python's \<^verbatim>\<open>ZeroDivisionError\<close>, not a
  \<^verbatim>\<open>DegenerateEvidenceError\<close>.
\<close>

theorem zero_evidence_raises_counterexample:
  "update fl64 \<lparr>prior = 1 / 2, posterior_history = [1 / 2]\<rparr> [(0, 0)] [True]
     = (Inl ZeroDivisionError, \<lparr>prior = 1 / 2, posterior_history = [1 / 2]\<rparr>)
   \<and> fst (update fl64 \<lparr>prior = 1 / 2, posterior_history = [1 / 2]\<rparr> [(0, 0)] [True])
     \<noteq> Inl DegenerateEvidenceError"
  by (simp add: model_eval fl64_eval)

text \<open>
  Claim C2, amended.  Whenever the total evidence probability computes to exactly
  zero, \<^verbatim>\<open>update\<close> raises \<^verbatim>\<open>ZeroDivisionError\<close> and the object is left as it was:
  nothing is appended to the history.
\<close>

theorem zero_evidence_raises:
  assumes "posterior_history self \<noteq> []"
    and "p_evidence rnd (last (posterior_history self)) (zip tests results) = 0"
  shows "update rnd self tests results = (Inl ZeroDivisionError, self)"
  using assms by (simp add: update_unfold)

theorem zero_evidence_raises_witness:
  "update fl64 \<lparr>prior = 1 / 2, posterior_history = [1 / 2, 1 / 4]\<rparr> [(1, 1), (0, 0)] [False, True]
     = (Inl ZeroDivisionError, \<lparr>prior = 1 / 2, posterior_history = [1 / 2, 1 / 4]\<rparr>)"
proof -
  have h: "posterior_history \<lparr>prior = 1 / 2, posterior_history = [1 / 2, 1 / 4]\<rparr> \<noteq> []"
    by simp
  have z: "p_evidence fl64 (last (posterior_history \<lparr>prior = 1 / 2, posterior_history = [1 / 2, 1 / 4]\<rparr>))
             (zip [(1, 1), (0, 0)] [False, True]) = 0"
    by (simp add: model_eval fl64_eval)
  show ?thesis by (rule zero_evidence_raises [OF h z])
qed

text \<open>
  Claim C3.  Start from an object built by \<^verbatim>\<open>__init__\<close> with a prior in \<open>[0, 1]\<close>
  and make any sequence of \<^verbatim>\<open>update\<close> calls whose tests all have sensitivity and
  false positive rate in \<open>[0, 1]\<close>: every entry of the history lies in \<open>[0, 1]\<close>.
  This holds for every monotone rounding, so for the doubles of the program
  (\<open>rounding_fl64\<close>) and for exact arithmetic alike.
\<close>

theorem history_in_unit_interval:
  assumes "rounding rnd" and "0 \<le> p" and "p \<le> 1" and "init p = Inr self"
    and "\<forall>(tests, results) \<in> set calls. valid_tests tests"
  shows "\<forall>h \<in> set (posterior_history (updates rnd self calls)). 0 \<le> h \<and> h \<le> 1"
proof -
  have "unit_history self" using assms(2-4) by (auto simp: init_def unit_history_def)
  then have "unit_history (updates rnd self calls)"
    using assms(5) by (rule updates_unit_history [OF assms(1)])
  then show ?thesis by (simp add: unit_history_def)
qed

theorem history_in_unit_interval_witness:
  "posterior_history (updates fl64 \<lparr>prior = 1 / 2, posterior_history = [1 / 2]\<rparr>
      [([(3 / 4, 1 / 4)], [True]), ([(0, 0)], [True]), ([(1 / 2, 1 / 8), (1, 0)], [False])])
     = [1 / 2, 3 / 4, 2844378712023471 / 4503599627370496]
   \<and> (0::rat) \<le> 2844378712023471 / 4503599627370496
   \<and> (2844378712023471 / 4503599627370496 :: rat) \<le> 1"
proof -
  have i: "init (1 / 2) = Inr \<lparr>prior = 1 / 2, posterior_history = [1 / 2]\<rparr>"
    by (simp add: init_def)
  have v: "\<forall>(tests, results) \<in> set [([(3 / 4, 1 / 4)], [True]), ([(0, 0)], [True]),
             ([(1 / 2, 1 / 8), (1, 0 :: rat)], [False])]. valid_tests tests"
    by (simp add: valid_tests_def)
  have e: "posterior_history (updates fl64 \<lparr>prior = 1 / 2, posterior_history = [1 / 2]\<rparr>
      [([(3 / 4, 1 / 4)], [True]), ([(0, 0)], [True]), ([(1 / 2, 1 / 8), (1, 0)], [False])])
     = [1 / 2, 3 / 4, 2844378712023471 / 4503599627370496]"
    by (simp add: model_eval fl64_eval)
  show ?thesis
    using history_in_unit_interval [OF rounding_fl64 _ _ i v] unfolding e by simp
qed




text \<open>
  In exact arithmetic the two posteriors are equal, whenever the evidence
  probability of the first item alone and that of both items are non-zero.
\<close>

lemma batched_equals_sequential_exact:
  assumes "posterior_history self \<noteq> []" and "p = last (posterior_history self)"
    and "p_evidence exact p [(t1, r1)] \<noteq> 0"
    and "p_evidence exact p [(t1, r1), (t2, r2)] \<noteq> 0"
  shows "fst (update exact self [t1, t2] [r1, r2]) = Inr (bayes_posterior exact p [(t1, r1), (t2, r2)])
       \<and> fst (update exact (snd (update exact self [t1] [r1])) [t2] [r2])
           = Inr (bayes_posterior exact p [(t1, r1), (t2, r2)])"
proof -
  define a1 where "a1 = factor_d exact (t1, r1)"
  define b1 where "b1 = factor_not_d exact (t1, r1)"
  define a2 where "a2 = factor_d exact (t2, r2)"
  define b2 where "b2 = factor_not_d exact (t2, r2)"
  define p1 where "p1 = p * a1 / (p * a1 + (1 - p) * b1)"
  have pe1: "p_evidence exact q [(t1, r1)] = q * a1 + (1 - q) * b1" for q
    by (simp add: p_evidence_def likelihood_d_def likelihood_not_d_def exact_def a1_def b1_def)
  have pe2: "p_evidence exact q [(t2, r2)] = q * a2 + (1 - q) * b2" for q
    by (simp add: p_evidence_def likelihood_d_def likelihood_not_d_def exact_def a2_def b2_def)
  have pe12: "p_evidence exact q [(t1, r1), (t2, r2)] = q * (a1 * a2) + (1 - q) * (b1 * b2)" for q
    by (simp add: p_evidence_def likelihood_d_def likelihood_not_d_def exact_def
        a1_def b1_def a2_def b2_def)
  have bp1: "bayes_posterior exact p [(t1, r1)] = p1"
    by (simp add: bayes_posterior_def pe1 p1_def) (simp add: likelihood_d_def exact_def a1_def)
  have bp2: "bayes_posterior exact q [(t2, r2)] = q * a2 / (q * a2 + (1 - q) * b2)" for q
    by (simp add: bayes_posterior_def pe2) (simp add: likelihood_d_def exact_def a2_def)
  have bp12: "bayes_posterior exact p [(t1, r1), (t2, r2)]
                = p * (a1 * a2) / (p * (a1 * a2) + (1 - p) * (b1 * b2))"
    by (simp add: bayes_posterior_def pe12) (simp add: likelihood_d_def exact_def a1_def a2_def)
  have n1: "p * a1 + (1 - p) * b1 \<noteq> 0" using assms(3) by (simp add: pe1)
  have n12: "p * (a1 * a2) + (1 - p) * (b1 * b2) \<noteq> 0" using assms(4) by (simp add: pe12)
  note chain = exact_posterior_chain [OF n1 n12, folded p1_def]
  have first: "update exact self [t1] [r1]
      = (Inr p1, self\<lparr>posterior_history := posterior_history self @ [p1]\<rparr>)"
    using assms(1,3) by (simp add: update_unfold assms(2) [symmetric] bp1)
  have batch: "fst (update exact self [t1, t2] [r1, r2])
      = Inr (bayes_posterior exact p [(t1, r1), (t2, r2)])"
    using assms(1,4) by (simp add: update_unfold assms(2) [symmetric])
  have second: "fst (update exact (self\<lparr>posterior_history := posterior_history self @ [p1]\<rparr>) [t2] [r2])
      = Inr (p1 * a2 / (p1 * a2 + (1 - p1) * b2))"
    using chain(1) by (simp add: update_unfold pe2 bp2)
  show ?thesis
    using batch second by (simp add: first chain(2) bp12)
qed

text \<open>
  Claim C5.  A call that returns a posterior has lengthened the history by exactly
  one entry, however many items were fused; a call that raises has left the object,
  and so the length of its history, unchanged.
\<close>

theorem history_growth:
  "(fst (update rnd self tests results) = Inr q \<longrightarrow>
      length (posterior_history (snd (update rnd self tests results)))
        = length (posterior_history self) + 1) \<and>
   (fst (update rnd self tests results) = Inl e \<longrightarrow>
      snd (update rnd self tests results) = self)"
  by (simp add: update_unfold)

theorem history_growth_witness:
  "(length (posterior_history (snd (update fl64 \<lparr>prior = 1 / 2, posterior_history = [1 / 2]\<rparr>
        [(3 / 4, 1 / 4), (1 / 2, 1 / 8)] [True, False])))
     = length (posterior_history \<lparr>prior = 1 / 2, posterior_history = [1 / 2]\<rparr>) + 1) \<and>
   (snd (update fl64 \<lparr>prior = 1 / 2, posterior_history = [1 / 2]\<rparr> [(0, 0)] [True])
     = \<lparr>prior = 1 / 2, posterior_history = [1 / 2]\<rparr>)"
proof -
  have ok: "fst (update fl64 \<lparr>prior = 1 / 2, posterior_history = [1 / 2]\<rparr>
        [(3 / 4, 1 / 4), (1 / 2, 1 / 8)] [True, False]) = Inr (2844378712023471 / 4503599627370496)"
    by (simp add: model_eval fl64_eval)
  have bad: "fst (update fl64 \<lparr>prior = 1 / 2, posterior_history = [1 / 2]\<rparr> [(0, 0)] [True])
        = Inl ZeroDivisionError"
    by (simp add: model_eval fl64_eval)
  show ?thesis
    using ok bad
      history_growth [of fl64 "\<lparr>prior = 1 / 2, posterior_history = [1 / 2]\<rparr>"
        "[(3 / 4, 1 / 4), (1 / 2, 1 / 8)]" "[True, False]" "2844378712023471 / 4503599627370496"]
      history_growth [of fl64 "\<lparr>prior = 1 / 2, posterior_history = [1 / 2]\<rparr>"
        "[(0, 0)]" "[True]" _ ZeroDivisionError]
    by blast
qed

text \<open>
  Claim C6, as stated, fails: with an empty evidence list the loop body never
  runs, both likelihoods stay \<open>1\<close>, and the call returns and appends a posterior;
  no \<^verbatim>\<open>EmptyEvidenceError\<close> is raised.
\<close>

theorem empty_evidence_counterexample:
  "update fl64 \<lparr>prior = 1 / 2, posterior_history = [1 / 2]\<rparr> [] []
     = (Inr (1 / 2), \<lparr>prior = 1 / 2, posterior_history = [1 / 2, 1 / 2]\<rparr>)
   \<and> fst (update fl64 \<lparr>prior = 1 / 2, posterior_history = [1 / 2]\<rparr> [] [])
     \<noteq> Inl EmptyEvidenceError"
  by (simp add: model_eval fl64_eval)

text \<open>
  Claim C6, amended.  For a current belief in \<open>[0, 1]\<close>, calling \<^verbatim>\<open>update\<close> with an
  empty evidence list raises no error: it returns a posterior and appends it to
  the history as one new entry.  That posterior is the current belief divided by
  the rounded sum \<open>p + (1 - p)\<close>; in exact arithmetic it is the current belief
  itself.
\<close>

theorem empty_evidence_returns:
  assumes "rounding rnd" and "posterior_history self \<noteq> []"
    and "0 \<le> last (posterior_history self)" and "last (posterior_history self) \<le> 1"
  shows "update rnd self [] [] =
           (Inr (bayes_posterior rnd (last (posterior_history self)) []),
            self\<lparr>posterior_history := posterior_history self
               @ [bayes_posterior rnd (last (posterior_history self)) []]\<rparr>)
       \<and> bayes_posterior exact (last (posterior_history self)) [] = last (posterior_history self)"
proof -
  have "p_evidence rnd (last (posterior_history self)) [] \<noteq> 0"
    using p_evidence_Nil_pos [OF assms(1,3,4)] by simp
  then have "update rnd self [] [] =
           (Inr (bayes_posterior rnd (last (posterior_history self)) []),
            self\<lparr>posterior_history := posterior_history self
               @ [bayes_posterior rnd (last (posterior_history self)) []]\<rparr>)"
    using assms(2) by (simp add: update_unfold)
  moreover have "bayes_posterior exact (last (posterior_history self)) [] = last (posterior_history self)"
    by (simp add: bayes_posterior_def p_evidence_def likelihood_d_def likelihood_not_d_def exact_def)
  ultimately show ?thesis by simp
qed

theorem empty_evidence_returns_witness:
  "update fl64 \<lparr>prior = 1 / 4, posterior_history = [1 / 4]\<rparr> [] []
     = (Inr (1 / 4), \<lparr>prior = 1 / 4, posterior_history = [1 / 4, 1 / 4]\<rparr>)"
proof -
  have h: "posterior_history \<lparr>prior = 1 / 4, posterior_history = [1 / 4]\<rparr> \<noteq> []"
    "0 \<le> last (posterior_history \<lparr>prior = 1 / 4, posterior_history = [1 / 4]\<rparr>)"
    "last (posterior_history \<lparr>prior = 1 / 4, posterior_history = [1 / 4]\<rparr>) \<le> 1"
    by simp_all
  have v: "bayes_posterior fl64 (last (posterior_history \<lparr>prior = 1 / 4, posterior_history = [1 / 4]\<rparr>)) [] = 1 / 4"
    by (simp add: model_eval fl64_eval)
  show ?thesis
    using empty_evidence_returns [OF rounding_fl64 h] unfolding v by simp
qed

text \<open>
  Claim C7, as stated, fails: \<^verbatim>\<open>__init__\<close> accepts the prior \<open>1.5\<close> and builds the
  object; no \<^verbatim>\<open>InvalidProbabilityError\<close> is raised.
\<close>

theorem construction_counterexample:
  "init (3 / 2) = Inr \<lparr>prior = 3 / 2, posterior_history = [3 / 2]\<rparr>
   \<and> init (3 / 2) \<noteq> Inl InvalidProbabilityError"
  by (simp add: init_def)

text \<open>
  Claim C7, amended.  Construction never raises: \<^verbatim>\<open>__init__\<close> accepts every prior and
  stores it as the only history entry.  Tests are plain tuples with no constructor
  of their own, and \<^verbatim>\<open>update\<close> checks no range either: it never raises
  \<^verbatim>\<open>InvalidProbabilityError\<close>.
\<close>

theorem construction_never_raises:
  "init p = Inr \<lparr>prior = p, posterior_history = [p]\<rparr>
   \<and> fst (update rnd self tests results) \<noteq> Inl InvalidProbabilityError"
  by (simp add: init_def update_unfold)

text \<open>
  Claim C8, as stated, fails.  With belief \<open>1/2\<close> and a single test whose
  sensitivity and false positive rate are both \<open>1\<close>, a negative outcome has
  probability zero under both hypotheses, and the call raises
  \<^verbatim>\<open>ZeroDivisionError\<close> instead of returning the belief.  The same happens when
  both rates are the least positive double \<open>2\<^sup>-\<^sup>1\<^sup>0\<^sup>7\<^sup>4\<close> and the outcome is positive:
  both products underflow to zero.
\<close>

theorem null_test_counterexample:
  "(0::rat) < 1 / 2 \<and> (1 / 2 :: rat) < 1 \<and>
   update fl64 \<lparr>prior = 1 / 2, posterior_history = [1 / 2]\<rparr> [(1, 1)] [False]
     = (Inl ZeroDivisionError, \<lparr>prior = 1 / 2, posterior_history = [1 / 2]\<rparr>)
   \<and> (0::rat) < 2 powi (- 1074)
   \<and> fl64 (2 powi (- 1074)) = 2 powi (- 1074)
   \<and> update fl64 \<lparr>prior = 1 / 2, posterior_history = [1 / 2]\<rparr>
         [(2 powi (- 1074), 2 powi (- 1074))] [True]
     = (Inl ZeroDivisionError, \<lparr>prior = 1 / 2, posterior_history = [1 / 2]\<rparr>)"
proof -
  define s :: rat where "s = 2 powi (- 1074)"
  have s0: "0 < s" by (simp add: s_def)
  have sfix: "fl64 s = s" using fl64_dyadic [of 1 "- 1074"] by (simp add: s_def)
  have "(2::rat) powi (- 1074) = 2 powi (1 + - 1075)" by simp
  also have "\<dots> = 2 powi 1 * 2 powi (- 1075)" by (rule pow2_split)
  finally have "s / 2 = 2 powi (- 1075)" by (simp add: s_def)
  then have half: "fl64 (s / 2) = 0" using s0 by (intro fl64_underflow) simp_all
  have a: "update fl64 \<lparr>prior = 1 / 2, posterior_history = [1 / 2]\<rparr> [(1, 1)] [False]
     = (Inl ZeroDivisionError, \<lparr>prior = 1 / 2, posterior_history = [1 / 2]\<rparr>)"
    by (simp add: model_eval fl64_eval)
  have b: "update fl64 \<lparr>prior = 1 / 2, posterior_history = [1 / 2]\<rparr> [(s, s)] [True]
     = (Inl ZeroDivisionError, \<lparr>prior = 1 / 2, posterior_history = [1 / 2]\<rparr>)"
    by (simp add: model_eval Let_def sfix half fl64_half fl64_0)
  show ?thesis using s0 sfix a b unfolding s_def by simp
qed

text \<open>
  Claim C8, amended.  Let the current belief \<open>p\<close> be in \<open>(0, 1)\<close> and the single
  item have sensitivity equal to its false positive rate, a double in \<open>[0, 1]\<close>,
  with likelihood factor \<open>L\<close> (the rate for a positive outcome, one minus the rate,
  rounded, for a negative one).  When \<open>p * L\<close> and \<open>(1 - p) * L\<close> are at least
  \<open>2\<^sup>-\<^sup>1\<^sup>0\<^sup>2\<^sup>1\<close>, so that nothing underflows and in particular \<open>L\<close> is not zero,
  \<^verbatim>\<open>update\<close> returns a posterior within \<open>1e-9\<close> of \<open>history[-1]\<close> and appends it.
\<close>

theorem null_test_identity:
  assumes "posterior_history self \<noteq> []" and "p = last (posterior_history self)"
    and "0 < p" and "p < 1"
    and "sensitivity = false_positive_rate"
    and "0 \<le> sensitivity" and "sensitivity \<le> 1" and "fl64 sensitivity = sensitivity"
    and "L = factor_d fl64 ((sensitivity, false_positive_rate), outcome)"
    and "2 powi (- 1021) \<le> p * L" and "2 powi (- 1021) \<le> (1 - p) * L"
  shows "update fl64 self [(sensitivity, false_positive_rate)] [outcome]
     = (Inr (bayes_posterior fl64 p [((sensitivity, false_positive_rate), outcome)]),
        self\<lparr>posterior_history := posterior_history self
           @ [bayes_posterior fl64 p [((sensitivity, false_positive_rate), outcome)]]\<rparr>)
   \<and> \<bar>bayes_posterior fl64 p [((sensitivity, false_positive_rate), outcome)] - p\<bar> \<le> 1 / 10 ^ 9"
proof -
  define a :: rat where "a = 1 - 1 / 2 ^ 53"
  define b :: rat where "b = 1 + 1 / 2 ^ 53"
  define m :: rat where "m = 2 powi (- 1021)"
  note c = fl64_unit_consts [folded a_def b_def]
  have m0: "0 < m" by (simp add: m_def)
  have m2: "2 powi (- 1022) = 1 / 2 * m" unfolding m_def by (rule pow2_1021)
  have rel: "a * x \<le> fl64 x \<and> fl64 x \<le> b * x" if "1 / 2 * m \<le> x" for x
    using fl64_rel_bounds [of x] that unfolding m2 a_def b_def by simp
  have pL: "m \<le> p * L" and qL: "m \<le> (1 - p) * L" using assms(10,11) by (simp_all add: m_def)
  have L0: "0 < L"
  proof (rule ccontr)
    assume "\<not> 0 < L"
    then have "p * L \<le> 0" using assms(3) by (simp add: mult_le_0_iff)
    with pL m0 show False by linarith
  qed
  have L1: "L \<le> 1"
  proof (cases outcome)
    case True
    then show ?thesis using assms(7,9) by simp
  next
    case False
    have "fl64 (1 - sensitivity) \<le> fl64 1" using assms(6) by (intro fl64_mono) simp
    then show ?thesis using False assms(9) by (simp add: fl64_1)
  qed
  have Lfix: "fl64 L = L"
    using assms(8,9) by (cases outcome) (simp_all add: fl64_idem)
  have ld: "likelihood_d fl64 [((sensitivity, false_positive_rate), outcome)] = L"
    using Lfix assms(9) by (simp add: likelihood_d_def)
  have lnd: "likelihood_not_d fl64 [((sensitivity, false_positive_rate), outcome)] = L"
    using Lfix assms(5,9) by (simp add: likelihood_not_d_def)
  define q where "q = fl64 (1 - p)"
  define N where "N = fl64 (p * L)"
  define M where "M = fl64 (q * L)"
  define D where "D = fl64 (N + M)"
  define R where "R = fl64 (N / D)"
  have p_ge: "m \<le> p"
  proof -
    have "p * L \<le> p * 1" using L1 assms(3) by (intro mult_left_mono) simp_all
    with pL show ?thesis by simp
  qed
  have q_ge: "m \<le> 1 - p"
  proof -
    have "(1 - p) * L \<le> (1 - p) * 1" using L1 assms(4) by (intro mult_left_mono) simp_all
    with qL show ?thesis by simp
  qed
  have q: "a * (1 - p) \<le> q" "q \<le> b * (1 - p)"
    using rel [of "1 - p"] q_ge m0 by (simp_all add: q_def)
  have N: "a * (p * L) \<le> N" "N \<le> b * (p * L)"
    using rel [of "p * L"] pL m0 by (simp_all add: N_def)
  have "1 / 2 * m \<le> a * m" using c(7) m0 by (intro mult_right_mono) simp_all
  also have "a * m \<le> a * ((1 - p) * L)" using qL c(1) by (intro mult_left_mono) simp_all
  also have "\<dots> = a * (1 - p) * L" by simp
  also have "\<dots> \<le> q * L" using q(1) L0 by (intro mult_right_mono) simp_all
  finally have M: "a * (q * L) \<le> M" "M \<le> b * (q * L)"
    using rel [of "q * L"] by (simp_all add: M_def)
  have "1 / 2 * m \<le> a * m" using c(7) m0 by (intro mult_right_mono) simp_all
  also have "a * m \<le> a * (p * L)" using pL c(1) by (intro mult_left_mono) simp_all
  also have "\<dots> \<le> N" by (rule N(1))
  finally have N_ge: "1 / 2 * m \<le> N" .
  have "0 \<le> q * L"
    using q(1) c(1) assms(4) L0 by (intro mult_nonneg_nonneg) (auto intro: order_trans [rotated])
  then have "0 \<le> M" unfolding M_def by (rule fl64_nonneg)
  then have "1 / 2 * m \<le> N + M" using N_ge by linarith
  then have D: "a * (N + M) \<le> D" "D \<le> b * (N + M)"
    using rel [of "N + M"] by (simp_all add: D_def)
  note quot = null_test_quotient [OF c(1,2,3) assms(3,4) L0 q N M D]
  have "1 / 2 * m \<le> 1 / 2 * p" using p_ge by simp
  also have "\<dots> \<le> a / b ^ 3 * p" using c(6) assms(3) by (intro mult_right_mono) simp_all
  also have "\<dots> = a * p / b ^ 3" by simp
  also have "\<dots> \<le> N / D" by (rule quot(2))
  finally have R: "a * (N / D) \<le> R" "R \<le> b * (N / D)"
    using rel [of "N / D"] by (simp_all add: R_def)
  have err: "\<bar>R - p\<bar> \<le> 1 / 10 ^ 9"
    by (rule null_test_error [OF c(1,3,4,5) _ assms(3,4) quot(2,3) R]) simp
  have pe: "p_evidence fl64 p [((sensitivity, false_positive_rate), outcome)] = D"
    by (simp add: p_evidence_def ld lnd D_def N_def M_def q_def)
  have bp: "bayes_posterior fl64 p [((sensitivity, false_positive_rate), outcome)] = R"
    by (simp add: bayes_posterior_def pe ld R_def N_def)
  have "D \<noteq> 0" using quot(1) by simp
  then show ?thesis
    using assms(1) err by (simp add: update_unfold assms(2) [symmetric] pe bp)
qed

theorem null_test_identity_witness:
  "update fl64 \<lparr>prior = 3602879701896397 / 36028797018963968,
                  posterior_history = [3602879701896397 / 36028797018963968]\<rparr>
     [(5404319552844595 / 18014398509481984, 5404319552844595 / 18014398509481984)] [True]
   = (Inr (900719925474099 / 9007199254740992),
      \<lparr>prior = 3602879701896397 / 36028797018963968,
       posterior_history = [3602879701896397 / 36028797018963968,
                            900719925474099 / 9007199254740992]\<rparr>)
   \<and> \<bar>900719925474099 / 9007199254740992 - 3602879701896397 / 36028797018963968 :: rat\<bar>
       \<le> 1 / 10 ^ 9"
proof -
  let ?p = "3602879701896397 / 36028797018963968 :: rat"
  let ?s = "5404319552844595 / 18014398509481984 :: rat"
  let ?self = "\<lparr>prior = ?p, posterior_history = [?p]\<rparr>"
  have h: "posterior_history ?self \<noteq> []" "?p = last (posterior_history ?self)" by simp_all
  have r: "0 < ?p" "?p < 1" "0 \<le> ?s" "?s \<le> 1" by simp_all
  have f: "fl64 ?s = ?s" by (simp add: fl64_eval)
  have l: "?s = factor_d fl64 ((?s, ?s), True)" by simp
  have u: "2 powi (- 1021) \<le> ?p * ?s" "2 powi (- 1021) \<le> (1 - ?p) * ?s" by simp_all
  have v: "bayes_posterior fl64 ?p [((?s, ?s), True)] = 900719925474099 / 9007199254740992"
    by (simp add: model_eval fl64_eval)
  show ?thesis
    using null_test_identity [OF h r(1,2) refl r(3,4) f l u] unfolding v by simp
qed

text \<open>
  In exact arithmetic the identity is an equality, for every belief and every
  non-zero factor.
\<close>

lemma null_test_identity_exact:
  assumes "posterior_history self \<noteq> []" and "sensitivity = false_positive_rate"
    and "factor_d exact ((sensitivity, false_positive_rate), outcome) \<noteq> 0"
  shows "update exact self [(sensitivity, false_positive_rate)] [outcome]
     = (Inr (last (posterior_history self)),
        self\<lparr>posterior_history := posterior_history self @ [last (posterior_history self)]\<rparr>)"
proof -
  define s where "s = factor_d exact ((sensitivity, false_positive_rate), outcome)"
  have s': "factor_not_d exact ((sensitivity, false_positive_rate), outcome) = s"
    using assms(2) by (simp add: s_def)
  have ld: "likelihood_d exact [((sensitivity, false_positive_rate), outcome)] = s"
    unfolding likelihood_d_def s_def by (simp add: exact_def)
  have lnd: "likelihood_not_d exact [((sensitivity, false_positive_rate), outcome)] = s"
    using s' by (simp add: likelihood_not_d_def exact_def)
  have pe: "p_evidence exact q [((sensitivity, false_positive_rate), outcome)] = s" for q
    unfolding p_evidence_def ld lnd by (simp add: exact_def algebra_simps)
  have bp: "bayes_posterior exact q [((sensitivity, false_positive_rate), outcome)] = q" for q
    unfolding bayes_posterior_def pe ld using assms(3) by (simp add: exact_def s_def)
  show ?thesis using assms(1,3) by (simp add: update_unfold pe bp s_def)
qed

text \<open>
  Claim C9, as stated, fails: from the prior \<open>0.001\<close>, one positive test with
  sensitivity \<open>0.95\<close> and false positive rate \<open>0.02\<close> gives the posterior
  \<open>0.045389...\<close>, which is further than \<open>1e-4\<close> from \<open>0.04566\<close>.
\<close>

theorem scenario_1_counterexample:
  "init (fl64 (1 / 1000)) = Inr \<lparr>prior = fl64 (1 / 1000), posterior_history = [fl64 (1 / 1000)]\<rparr>
   \<and> fst (update fl64 \<lparr>prior = fl64 (1 / 1000), posterior_history = [fl64 (1 / 1000)]\<rparr>
          [(fl64 (95 / 100), fl64 (2 / 100))] [True])
       = Inr (6541300939897901 / 144115188075855872)
   \<and> \<not> \<bar>6541300939897901 / 144115188075855872 - 4566 / 100000 :: rat\<bar> \<le> 1 / 10000"
  by (simp add: init_def model_eval fl64_eval)

text \<open>
  Claim C9, amended.  From the prior \<open>0.001\<close>, one positive test with sensitivity
  \<open>0.95\<close> and false positive rate \<open>0.02\<close> returns a posterior equal to \<open>0.04539\<close>
  within \<open>1e-4\<close>; in exact arithmetic the posterior is \<open>95/2093\<close>.
\<close>

theorem scenario_1_posterior:
  "fst (update fl64 \<lparr>prior = fl64 (1 / 1000), posterior_history = [fl64 (1 / 1000)]\<rparr>
          [(fl64 (95 / 100), fl64 (2 / 100))] [True])
       = Inr (6541300939897901 / 144115188075855872)
   \<and> \<bar>6541300939897901 / 144115188075855872 - 4539 / 100000 :: rat\<bar> \<le> 1 / 10000
   \<and> bayes_posterior exact (1 / 1000) [((95 / 100, 2 / 100), True)] = 95 / 2093"
  by (simp add: model_eval fl64_eval)

text \<open>
  Claim C10, as stated, fails: a call whose sequences differ in length can still
  raise.  With one test \<open>(0, 0)\<close> and the two results \<open>[True, False]\<close> the paired
  evidence has probability zero and the call raises \<^verbatim>\<open>ZeroDivisionError\<close>,
  appending nothing.
\<close>

theorem mismatched_lengths_counterexample:
  "length [(0, 0) :: rat \<times> rat] \<noteq> length [True, False] \<and>
   update fl64 \<lparr>prior = 1 / 2, posterior_history = [1 / 2]\<rparr> [(0, 0)] [True, False]
     = (Inl ZeroDivisionError, \<lparr>prior = 1 / 2, posterior_history = [1 / 2]\<rparr>)"
  by (simp add: model_eval fl64_eval)

text \<open>
  Claim C10, amended.  A difference in length raises nothing of its own: the call
  behaves exactly as the call on the first \<open>min (len tests) (len results)\<close> items
  of each sequence.  When the evidence probability of those pairs is not zero it
  returns their posterior and appends exactly one entry to the history.
\<close>

theorem mismatched_lengths_truncate:
  assumes "n = min (length tests) (length results)"
  shows "update rnd self tests results = update rnd self (take n tests) (take n results)
    \<and> (posterior_history self \<noteq> [] \<longrightarrow>
         p_evidence rnd (last (posterior_history self)) (zip (take n tests) (take n results)) \<noteq> 0 \<longrightarrow>
         fst (update rnd self tests results)
           = Inr (bayes_posterior rnd (last (posterior_history self)) (zip (take n tests) (take n results)))
         \<and> length (posterior_history (snd (update rnd self tests results)))
           = length (posterior_history self) + 1)"
  unfolding assms by (simp add: update_unfold zip_take_min)

theorem mismatched_lengths_truncate_witness:
  "update fl64 \<lparr>prior = 1 / 2, posterior_history = [1 / 2]\<rparr> [(3 / 4, 1 / 4), (0, 0)] [True]
     = update fl64 \<lparr>prior = 1 / 2, posterior_history = [1 / 2]\<rparr> [(3 / 4, 1 / 4)] [True]
   \<and> fst (update fl64 \<lparr>prior = 1 / 2, posterior_history = [1 / 2]\<rparr> [(3 / 4, 1 / 4), (0, 0)] [True])
     = Inr (3 / 4)
   \<and> length (posterior_history (snd (update fl64 \<lparr>prior = 1 / 2, posterior_history = [1 / 2]\<rparr>
        [(3 / 4, 1 / 4), (0, 0)] [True]))) = 2"
proof -
  have n: "(1::nat) = min (length [(3 / 4, 1 / 4), (0, 0 :: rat) :: rat \<times> rat]) (length [True])"
    by simp
  have h: "posterior_history \<lparr>prior = 1 / 2, posterior_history = [1 / 2]\<rparr> \<noteq> []" by simp
  have e: "p_evidence fl64 (last (posterior_history \<lparr>prior = 1 / 2, posterior_history = [1 / 2]\<rparr>))
             (zip (take 1 [(3 / 4, 1 / 4), (0, 0)]) (take 1 [True])) \<noteq> 0"
    by (simp add: model_eval fl64_eval)
  have v: "bayes_posterior fl64 (last (posterior_history \<lparr>prior = 1 / 2, posterior_history = [1 / 2]\<rparr>))
             (zip (take 1 [(3 / 4, 1 / 4), (0, 0)]) (take 1 [True])) = 3 / 4"
    by (simp add: model_eval fl64_eval)
  note t = mismatched_lengths_truncate [OF n, of fl64 "\<lparr>prior = 1 / 2, posterior_history = [1 / 2]\<rparr>"]
  have a: "update fl64 \<lparr>prior = 1 / 2, posterior_history = [1 / 2]\<rparr> [(3 / 4, 1 / 4), (0, 0)] [True]
     = update fl64 \<lparr>prior = 1 / 2, posterior_history = [1 / 2]\<rparr>
         (take 1 [(3 / 4, 1 / 4), (0, 0)]) (take 1 [True])"
    using t by (rule conjunct1)
  have b: "fst (update fl64 \<lparr>prior = 1 / 2, posterior_history = [1 / 2]\<rparr> [(3 / 4, 1 / 4), (0, 0)] [True])
       = Inr (3 / 4)
     \<and> length (posterior_history (snd (update fl64 \<lparr>prior = 1 / 2, posterior_history = [1 / 2]\<rparr>
          [(3 / 4, 1 / 4), (0, 0)] [True])))
       = length (posterior_history \<lparr>prior = 1 / 2, posterior_history = [1 / 2]\<rparr>) + 1"
    using t h e unfolding v by blast
  show ?thesis
  proof (intro conjI)
    show "update fl64 \<lparr>prior = 1 / 2, posterior_history = [1 / 2]\<rparr> [(3 / 4, 1 / 4), (0, 0)] [True]
      = update fl64 \<lparr>prior = 1 / 2, posterior_history = [1 / 2]\<rparr> [(3 / 4, 1 / 4)] [True]"
      using a by simp
    show "fst (update fl64 \<lparr>prior = 1 / 2, posterior_history = [1 / 2]\<rparr> [(3 / 4, 1 / 4), (0, 0)] [True])
      = Inr (3 / 4)"
      using b by (rule conjunct1)
    show "length (posterior_history (snd (update fl64 \<lparr>prior = 1 / 2, posterior_history = [1 / 2]\<rparr>
        [(3 / 4, 1 / 4), (0, 0)] [True]))) = 2"
      using b by simp
  qed
qed

end
